theory Spec2Isabelle
  imports Main "HOL-Library.Multiset"
begin

section \<open>JavaScript values used by the dice panel\<close>

text \<open>
  A JavaScript string is a sequence of UTF-16 code units; a code unit is a natural number.
  Numbers are mathematical integers here: every number the panel computes is either a
  count between 0 and 5 or the integer read off a die by \<open>parseInt\<close>, and \<open>NaN\<close> is the
  absent result of \<open>parseInt\<close>. \<open>parseInt\<close> rounds an integer beyond \<open>2^53\<close> to a double,
  which is again beyond \<open>2^53\<close>; the rounding is not modelled, and whether a die reads 0
  or one of the faces 1 to 6 is the same with it and without it.
\<close>

type_synonym jsstring = "nat list"

definition js_str :: "string \<Rightarrow> jsstring" where
  "js_str s = map of_char s"

text \<open>
  The combination predicates return whatever their expression evaluates to, a boolean
  or a number, so their results carry the dynamic type.
\<close>

datatype jsval = JBool bool | JNum int

fun truthy :: "jsval \<Rightarrow> bool" where
  "truthy (JBool b) = b"
| "truthy (JNum n) = (n \<noteq> 0)"

text \<open>\<open>a && b\<close> is \<open>a\<close> when \<open>a\<close> is falsy and \<open>b\<close> otherwise; \<open>a || b\<close> is \<open>a\<close> when
  \<open>a\<close> is truthy and \<open>b\<close> otherwise.\<close>

definition js_and :: "jsval \<Rightarrow> jsval \<Rightarrow> jsval" where
  "js_and a b = (if truthy a then b else a)"

definition js_or :: "jsval \<Rightarrow> jsval \<Rightarrow> jsval" where
  "js_or a b = (if truthy a then a else b)"

subsection \<open>\<open>parseInt(string, 10)\<close>\<close>

text \<open>
  ECMAScript's \<open>parseInt\<close> with radix 10: the argument is converted to a string
  (\<open>undefined\<close> becomes the string \<open>undefined\<close>), leading white space is dropped, one
  sign is read, and the longest prefix of decimal digits is the number. No digit at all
  gives \<open>NaN\<close>, here \<open>None\<close>.
\<close>

definition isWhiteSpace :: "nat \<Rightarrow> bool" where
  "isWhiteSpace c =
     (c = 0x09 \<or> c = 0x0A \<or> c = 0x0B \<or> c = 0x0C \<or> c = 0x0D \<or> c = 0x20 \<or> c = 0xA0
      \<or> c = 0x1680 \<or> (0x2000 \<le> c \<and> c \<le> 0x200A) \<or> c = 0x2028 \<or> c = 0x2029
      \<or> c = 0x202F \<or> c = 0x205F \<or> c = 0x3000 \<or> c = 0xFEFF)"

definition isDigit :: "nat \<Rightarrow> bool" where
  "isDigit c = (0x30 \<le> c \<and> c \<le> 0x39)"

fun digitsValue :: "int \<Rightarrow> jsstring \<Rightarrow> int" where
  "digitsValue acc [] = acc"
| "digitsValue acc (c # cs) = digitsValue (acc * 10 + (int c - 0x30)) cs"

definition parseInt :: "jsstring option \<Rightarrow> int option" where
  "parseInt input =
     (let inputString = (case input of None \<Rightarrow> js_str ''undefined'' | Some s \<Rightarrow> s);
          S = dropWhile isWhiteSpace inputString;
          sign = (case S of c # _ \<Rightarrow> (if c = 0x2D then - 1 else 1) | [] \<Rightarrow> (1::int));
          S' = (case S of c # cs \<Rightarrow> (if c = 0x2B \<or> c = 0x2D then cs else S) | [] \<Rightarrow> S);
          Z = takeWhile isDigit S'
      in if Z = [] then None else Some (sign * digitsValue 0 Z))"

section \<open>The dice of the panel\<close>

text \<open>
  \<open>this.dice\<close> is the jQuery collection of the panel's input elements, in document
  order. Of an element the panel reads and writes two things: its \<open>value\<close> property,
  a string, and whether it carries the class \<open>settings.classes.checked\<close>.
\<close>

record die =
  el_value :: jsstring
  hasClass_checked :: bool

type_synonym dice = "die list"

subsection \<open>jQuery primitives\<close>

text \<open>\<open>.eq(i)\<close>: a negative index counts from the end, an index out of range gives the
  empty collection.\<close>

definition jq_eq :: "dice \<Rightarrow> int \<Rightarrow> die option" where
  "jq_eq ds i =
     (let len = int (length ds);
          j = i + (if i < 0 then len else 0)
      in if 0 \<le> j \<and> j < len then Some (ds ! nat j) else None)"

text \<open>\<open>.val()\<close>: \<open>undefined\<close> on the empty collection, else the element's value with
  the carriage returns removed.\<close>

definition jq_val :: "die option \<Rightarrow> jsstring option" where
  "jq_val sel = (case sel of None \<Rightarrow> None
                 | Some el \<Rightarrow> Some (filter (\<lambda>c. c \<noteq> 0x0D) (el_value el)))"

text \<open>\<open>$.grep(elems, callback)\<close> without \<open>invert\<close>: the loop keeps the elements whose
  callback is true. Elements are named by their position in \<open>this.dice\<close>.\<close>

fun grep_loop :: "(die \<Rightarrow> bool) \<Rightarrow> die list \<Rightarrow> nat \<Rightarrow> nat list \<Rightarrow> nat list" where
  "grep_loop callback [] i matches = matches"
| "grep_loop callback (el # els) i matches =
     grep_loop callback els (Suc i)
       (let callbackInverse = \<not> callback el
        in if callbackInverse \<noteq> True then matches @ [i] else matches)"

definition jq_grep :: "die list \<Rightarrow> (die \<Rightarrow> bool) \<Rightarrow> nat list" where
  "jq_grep elems callback = grep_loop callback elems 0 []"

text \<open>\<open>$.inArray(elem, arr)\<close>: the first index holding \<open>elem\<close>, or \<open>-1\<close>.\<close>

fun inArray :: "int \<Rightarrow> int list \<Rightarrow> int" where
  "inArray x [] = - 1"
| "inArray x (y # ys) =
     (if y = x then 0 else (let r = inArray x ys in if r = - 1 then - 1 else r + 1))"

text \<open>\<open>.toggleClass(checked, state)\<close> on a collection of dice adds or removes the class
  on each of them; \<open>.toggleClass(checked)\<close> flips it.\<close>

definition setClass :: "bool \<Rightarrow> die \<Rightarrow> die" where
  "setClass state el = el\<lparr>hasClass_checked := state\<rparr>"

fun toggleClass_state :: "nat list \<Rightarrow> bool \<Rightarrow> dice \<Rightarrow> dice" where
  "toggleClass_state [] state ds = ds"
| "toggleClass_state (i # els) state ds =
     toggleClass_state els state (ds[i := setClass state (ds ! i)])"

definition toggleClass :: "nat \<Rightarrow> dice \<Rightarrow> dice" where
  "toggleClass i ds = ds[i := setClass (\<not> hasClass_checked (ds ! i)) (ds ! i)]"

section \<open>Selection\<close>

text \<open>\<open>filter(isChecked)\<close> keeps the dice for which
  \<open>$(el).hasClass(classes.checked) !== isChecked\<close>.\<close>

definition filter_dice :: "dice \<Rightarrow> bool \<Rightarrow> nat list" where
  "filter_dice ds isChecked = jq_grep ds (\<lambda>el. hasClass_checked el \<noteq> isChecked)"

text \<open>\<open>getDieCount(value, isChecked)\<close>: of the dice that \<open>filter(isChecked)\<close> returns,
  those whose value is the string \<open>value\<close>.\<close>

fun getDieCount_loop :: "dice \<Rightarrow> jsstring \<Rightarrow> nat list \<Rightarrow> nat list \<Rightarrow> nat list" where
  "getDieCount_loop ds v [] arr = arr"
| "getDieCount_loop ds v (el # elements) arr =
     getDieCount_loop ds v elements (if el_value (ds ! el) = v then arr @ [el] else arr)"

definition getDieCount :: "dice \<Rightarrow> jsstring \<Rightarrow> bool \<Rightarrow> nat list" where
  "getDieCount ds v isChecked = getDieCount_loop ds v (filter_dice ds isChecked) []"

text \<open>
  The click handler. With the control or meta key down, \<open>diceClick\<close> runs
  \<open>el = this.getDieCount(el.val(), !isChecked); el.toggleClass(classes.checked, !isChecked)\<close>;
  \<open>toggleByValue\<close> is these two statements, at a value and a new state.
  The handler is bound to the dice only, so the target of a click is one of them.
  The sound played is not part of the model.
\<close>

definition toggleByValue :: "jsstring \<Rightarrow> bool \<Rightarrow> dice \<Rightarrow> dice" where
  "toggleByValue v state ds = toggleClass_state (getDieCount ds v state) state ds"

record click_event =
  currentTarget :: nat
  ctrlKey :: bool
  metaKey :: bool

definition diceClick :: "click_event \<Rightarrow> dice \<Rightarrow> dice" where
  "diceClick ev ds =
     (let el = currentTarget ev
      in if el < length ds
         then (let isChecked = hasClass_checked (ds ! el)
               in if ctrlKey ev \<or> metaKey ev
                  then (case jq_val (Some (ds ! el)) of
                          Some v \<Rightarrow> toggleByValue v (\<not> isChecked) ds
                        | None \<Rightarrow> ds)
                  else toggleClass el ds)
         else ds)"

section \<open>Values and counts\<close>

text \<open>\<open>getDieValue(index)\<close> is \<open>parseInt(this.dice.eq(index).val(), 10) || 0\<close>:
  \<open>NaN\<close> and \<open>0\<close> are falsy, so both give the right operand.\<close>

definition getDieValue :: "dice \<Rightarrow> int \<Rightarrow> int" where
  "getDieValue ds index =
     (case parseInt (jq_val (jq_eq ds index)) of
        None \<Rightarrow> 0
      | Some n \<Rightarrow> (if n \<noteq> 0 then n else 0))"

text \<open>\<open>getDiceValues()\<close> fills \<open>arr[i]\<close> for \<open>i\<close> from 0 to 4.\<close>

fun getDiceValues_loop :: "dice \<Rightarrow> nat \<Rightarrow> nat \<Rightarrow> int list \<Rightarrow> int list" where
  "getDiceValues_loop ds 0 i arr = arr"
| "getDiceValues_loop ds (Suc k) i arr =
     getDiceValues_loop ds k (Suc i) (arr @ [getDieValue ds (int i)])"

definition getDiceValues :: "dice \<Rightarrow> int list" where
  "getDiceValues ds = getDiceValues_loop ds 5 0 []"

text \<open>\<open>getDiceCount(value)\<close>: the loop \<open>for (; len--;)\<close> walks the array from its last
  index down to 0.\<close>

fun getDiceCount_loop :: "int list \<Rightarrow> int \<Rightarrow> nat \<Rightarrow> int \<Rightarrow> int" where
  "getDiceCount_loop arr v 0 cnt = cnt"
| "getDiceCount_loop arr v (Suc len) cnt =
     getDiceCount_loop arr v len (if arr ! len = v then cnt + 1 else cnt)"

definition getDiceCount :: "dice \<Rightarrow> int \<Rightarrow> int" where
  "getDiceCount ds v =
     (let arr = getDiceValues ds in getDiceCount_loop arr v (length arr) 0)"

text \<open>\<open>getDiceCounts()\<close> pushes \<open>getDiceCount(i)\<close> for \<open>i\<close> from 1 to 6.\<close>

definition getDiceCounts :: "dice \<Rightarrow> int list" where
  "getDiceCounts ds = map (getDiceCount ds) [1, 2, 3, 4, 5, 6]"

section \<open>Combinations\<close>

definition isThreeOfaKind :: "dice \<Rightarrow> jsval" where
  "isThreeOfaKind ds = JBool (inArray 3 (getDiceCounts ds) > - 1)"

definition isFourOfaKind :: "dice \<Rightarrow> jsval" where
  "isFourOfaKind ds = JBool (inArray 4 (getDiceCounts ds) > - 1)"

definition isFullhouse :: "dice \<Rightarrow> jsval" where
  "isFullhouse ds =
     (let arr = getDiceCounts ds
      in js_or (js_and (JBool (inArray 3 arr > - 1)) (JBool (inArray 2 arr > - 1)))
               (JBool (inArray 5 arr > - 1)))"

definition isStreet :: "dice \<Rightarrow> jsval" where
  "isStreet ds =
     js_and (js_and (js_and (js_and (JNum (getDiceCount ds 2)) (JNum (getDiceCount ds 3)))
                            (JNum (getDiceCount ds 4)))
                    (JNum (getDiceCount ds 5)))
            (js_or (JNum (getDiceCount ds 1)) (JNum (getDiceCount ds 6)))"

definition isYam :: "dice \<Rightarrow> jsval" where
  "isYam ds = JBool (inArray 5 (getDiceCounts ds) > - 1)"

section \<open>Rolling\<close>

text \<open>
  \<open>rollDice(options, callback)\<close> takes \<open>dice = this.filter(true)\<close> and \<open>len = dice.length\<close>,
  starts with \<open>result = []\<close> and calls \<open>.roll\<close> on each of the \<open>len\<close> dice, handing every one
  the same closure. The roll itself belongs to the animation plug-in; what the panel owns
  is the state the closures share and what a closure does when the plug-in calls it with a
  value. \<open>fired\<close> lists the calls of \<open>callback\<close>, each with the content of \<open>result\<close> at
  that moment.
\<close>

record rolling =
  targets :: "nat list"
  len :: nat
  result :: "int list"
  callback_is_function :: bool
  fired :: "int list list"

definition rollDice :: "dice \<Rightarrow> bool \<Rightarrow> rolling" where
  "rollDice ds cb =
     (let dice = filter_dice ds True
      in \<lparr>targets = dice, len = length dice, result = [],
          callback_is_function = cb, fired = []\<rparr>)"

text \<open>The closure: \<open>result.push(value)\<close>, then the callback when
  \<open>result.length === len\<close> and the callback is a function.\<close>

definition onValue :: "int \<Rightarrow> rolling \<Rightarrow> rolling" where
  "onValue v st =
     (let st' = st\<lparr>result := result st @ [v]\<rparr>
      in if length (result st') = len st' \<and> callback_is_function st'
         then st'\<lparr>fired := fired st' @ [result st']\<rparr>
         else st')"

text \<open>A result arrives as a pair of the die that reports and its value. Only a die
  on which \<open>.roll\<close> was called holds the closure; a report of any other die reaches
  nothing of this roll.\<close>

definition deliver :: "nat \<times> int \<Rightarrow> rolling \<Rightarrow> rolling" where
  "deliver a st = (if fst a \<in> set (targets st) then onValue (snd a) st else st)"

definition arrive :: "(nat \<times> int) list \<Rightarrow> rolling \<Rightarrow> rolling" where
  "arrive arrivals st = fold deliver arrivals st"

text \<open>Of a sequence of reports, the values that reach a closure: those of the dice in
  \<open>ts\<close>, in their order of arrival.\<close>

definition accepted :: "nat list \<Rightarrow> (nat \<times> int) list \<Rightarrow> int list" where
  "accepted ts arrivals = map snd (filter (\<lambda>a. fst a \<in> set ts) arrivals)"

section \<open>The selection operations under the specification's names\<close>

text \<open>
  The specification names the held dice by \<open>filterByHeld(held)\<close> and rolls
  \<open>targets = filterByHeld(false)\<close>, where \<open>rollDice\<close> rolls \<open>this.filter(true)\<close>: a die is held
  when it carries the class, and \<open>filterByHeld(held)\<close> is the source's \<open>filter(!held)\<close>.
\<close>

definition filterByHeld :: "dice \<Rightarrow> bool \<Rightarrow> nat list" where
  "filterByHeld ds held = filter_dice ds (\<not> held)"

text \<open>
  A die that shows the face \<open>f\<close>, from 0 (not rolled yet) to 6, holds the decimal numeral
  of \<open>f\<close> as its value. \<open>toggleHeldByValue(faceValue, newHeldState)\<close> is the control-click
  branch of \<open>diceClick\<close> at the value string of that face.
\<close>

definition faceString :: "int \<Rightarrow> jsstring" where
  "faceString f = [nat (0x30 + f)]"

definition showsFace :: "die \<Rightarrow> bool" where
  "showsFace d = (el_value d \<in> set (map faceString [0, 1, 2, 3, 4, 5, 6]))"

definition toggleHeldByValue :: "int \<Rightarrow> bool \<Rightarrow> dice \<Rightarrow> dice" where
  "toggleHeldByValue faceValue newHeldState ds =
     toggleByValue (faceString faceValue) newHeldState ds"

section \<open>Sample panels\<close>

text \<open>A panel written as the list of its dice: the value string of each die and
  whether it carries the class.\<close>

definition panel :: "(string \<times> bool) list \<Rightarrow> dice" where
  "panel xs = map (\<lambda>(v, c). \<lparr>el_value = js_str v, hasClass_checked = c\<rparr>) xs"

definition all_sixes :: dice where
  "all_sixes = panel [(''6'', False), (''6'', False), (''6'', False), (''6'', False), (''6'', False)]"

definition four_sixes :: dice where
  "four_sixes = panel [(''6'', False), (''6'', False), (''6'', False), (''6'', False), (''1'', False)]"

definition unrolled :: dice where
  "unrolled = panel [(''0'', False), (''0'', False), (''0'', False), (''0'', False), (''0'', False)]"

definition low_street :: dice where
  "low_street = panel [(''1'', False), (''2'', False), (''3'', False), (''4'', False), (''5'', False)]"


definition first_held :: dice where
  "first_held = panel [(''1'', True), (''1'', False), (''2'', False), (''3'', False), (''4'', False)]"

definition all_held :: dice where
  "all_held = panel [(''1'', True), (''1'', True), (''2'', True), (''3'', True), (''4'', True)]"

definition two_dice :: dice where
  "two_dice = panel [(''3'', False), (''abc'', False)]"

section \<open>The loops in closed form\<close>

lemma grep_loop_eq:
  "grep_loop cb els i acc = acc @ filter (\<lambda>j. cb (els ! (j - i))) [i..<i + length els]"
proof (induction els arbitrary: i acc)
  case Nil
  show ?case by simp
next
  case (Cons e es)
  have shift: "filter (\<lambda>j. cb ((e # es) ! (j - i))) [Suc i..<Suc i + length es]
             = filter (\<lambda>j. cb (es ! (j - Suc i))) [Suc i..<Suc i + length es]"
  proof (rule filter_cong [OF refl])
    fix j
    assume "j \<in> set [Suc i..<Suc i + length es]"
    then have "j - i = Suc (j - Suc i)" by auto
    then show "cb ((e # es) ! (j - i)) = cb (es ! (j - Suc i))" by simp
  qed
  have "i + length (e # es) = Suc i + length es"
    by simp
  moreover have "[i..<Suc i + length es] = i # [Suc i..<Suc i + length es]"
    by (rule upt_conv_Cons) simp
  ultimately have "[i..<i + length (e # es)] = i # [Suc i..<Suc i + length es]"
    by (simp only:)
  then show ?case
    using Cons.IH [of "Suc i"] shift by simp
qed

lemma filter_dice_eq:
  "filter_dice ds b = filter (\<lambda>i. hasClass_checked (ds ! i) \<noteq> b) [0..<length ds]"
  by (simp add: filter_dice_def jq_grep_def grep_loop_eq)




lemma getDiceValues_eq:
  "getDiceValues ds = [getDieValue ds 0, getDieValue ds 1, getDieValue ds 2,
                       getDieValue ds 3, getDieValue ds 4]"
  by (simp add: getDiceValues_def eval_nat_numeral)

lemma length_getDiceValues: "length (getDiceValues ds) = 5"
  by (simp add: getDiceValues_eq)

lemma getDiceCount_loop_eq:
  "n \<le> length arr \<Longrightarrow>
   getDiceCount_loop arr v n c = c + int (count_list (take n arr) v)"
proof (induction n arbitrary: c)
  case 0
  show ?case by simp
next
  case (Suc n)
  then show ?case
    by (simp add: take_Suc_conv_app_nth)
qed

lemma getDiceCount_eq: "getDiceCount ds v = int (count_list (getDiceValues ds) v)"
  by (simp add: getDiceCount_def Let_def getDiceCount_loop_eq)

lemma inArray_ge: "- 1 \<le> inArray x xs"
  by (induction xs) (simp_all add: Let_def)

lemma inArray_iff: "(- 1 < inArray x xs) = (x \<in> set xs)"
proof (induction xs)
  case Nil
  show ?case by simp
next
  case (Cons y ys)
  show ?case
    using Cons.IH inArray_ge [of x ys] by (auto simp: Let_def)
qed

lemma in_getDiceCounts:
  "(k \<in> set (getDiceCounts ds)) =
   (\<exists>f \<in> {1, 2, 3, 4, 5, 6}. int (count_list (getDiceValues ds) f) = k)"
  by (auto simp: getDiceCounts_def getDiceCount_eq)

lemma count_list_two: "f \<noteq> g \<Longrightarrow> count_list xs f + count_list xs g \<le> length xs"
  by (induction xs) auto

lemma count_faces:
  "\<forall>v \<in> set xs. 0 \<le> v \<and> v \<le> 6 \<Longrightarrow>
   (\<Sum>f\<leftarrow>[1, 2, 3, 4, 5, 6]. int (count_list xs f)) + int (count_list xs 0)
     = int (length (xs :: int list))"
proof (induction xs)
  case Nil
  show ?case by simp
next
  case (Cons x xs)
  from Cons.prems have "0 \<le> x \<and> x \<le> 6"
    by simp
  then have "x = 0 \<or> x = 1 \<or> x = 2 \<or> x = 3 \<or> x = 4 \<or> x = 5 \<or> x = 6"
    by arith
  moreover from Cons have
    "(\<Sum>f\<leftarrow>[1, 2, 3, 4, 5, 6]. int (count_list xs f)) + int (count_list xs 0) = int (length xs)"
    by simp
  ultimately show ?case
    by auto
qed

subsection \<open>The sample panels evaluated\<close>

lemmas eval_defs = panel_def js_str_def getDieValue_def
  parseInt_def jq_val_def jq_eq_def isWhiteSpace_def isDigit_def

lemma values_all_sixes: "getDiceValues all_sixes = [6, 6, 6, 6, 6]"
  by (simp add: all_sixes_def getDiceValues_eq eval_defs)

lemma values_four_sixes: "getDiceValues four_sixes = [6, 6, 6, 6, 1]"
  by (simp add: four_sixes_def getDiceValues_eq eval_defs)

lemma values_unrolled: "getDiceValues unrolled = [0, 0, 0, 0, 0]"
  by (simp add: unrolled_def getDiceValues_eq eval_defs)

lemma values_low_street: "getDiceValues low_street = [1, 2, 3, 4, 5]"
  by (simp add: low_street_def getDiceValues_eq eval_defs)

lemma counts_all_sixes: "getDiceCounts all_sixes = [0, 0, 0, 0, 0, 5]"
  by (simp add: getDiceCounts_def getDiceCount_eq values_all_sixes)

lemma counts_four_sixes: "getDiceCounts four_sixes = [1, 0, 0, 0, 0, 4]"
  by (simp add: getDiceCounts_def getDiceCount_eq values_four_sixes)

lemma counts_unrolled: "getDiceCounts unrolled = [0, 0, 0, 0, 0, 0]"
  by (simp add: getDiceCounts_def getDiceCount_eq values_unrolled)

lemma counts_low_street: "getDiceCounts low_street = [1, 1, 1, 1, 1, 0]"
  by (simp add: getDiceCounts_def getDiceCount_eq values_low_street)

section \<open>Combination predicates and counts\<close>

text \<open>
  C1, as stated: \<open>isYam()\<close> true implies \<open>isFourOfaKind()\<close> true, which implies
  \<open>isThreeOfaKind()\<close> true. The code looks for a count that is exactly 3, 4 or 5.
  Five sixes are a yam and no four of a kind; four sixes and a one are a four of a
  kind and no three of a kind.
\<close>

theorem kinds_not_monotone:
  "isYam all_sixes = JBool True \<and> isFourOfaKind all_sixes = JBool False
   \<and> isFourOfaKind four_sixes = JBool True \<and> isThreeOfaKind four_sixes = JBool False"
  by (simp add: isYam_def isFourOfaKind_def isThreeOfaKind_def
      counts_all_sixes counts_four_sixes)

text \<open>
  C1, amended: each predicate tests for a face with a count of exactly 3, 4 or 5, and so the
  three exclude one another. When \<open>isYam()\<close> is true, \<open>isFourOfaKind()\<close> and
  \<open>isThreeOfaKind()\<close> are false; when \<open>isFourOfaKind()\<close> is true, \<open>isThreeOfaKind()\<close> is
  false. Two different faces cannot have counts that add up to more than the five dice.
\<close>

theorem kinds_exclusive:
  "isThreeOfaKind ds = JBool (\<exists>f \<in> {1, 2, 3, 4, 5, 6}. count_list (getDiceValues ds) f = 3)
   \<and> isFourOfaKind ds = JBool (\<exists>f \<in> {1, 2, 3, 4, 5, 6}. count_list (getDiceValues ds) f = 4)
   \<and> isYam ds = JBool (\<exists>f \<in> {1, 2, 3, 4, 5, 6}. count_list (getDiceValues ds) f = 5)
   \<and> (isYam ds = JBool True \<longrightarrow>
         isFourOfaKind ds = JBool False \<and> isThreeOfaKind ds = JBool False)
   \<and> (isFourOfaKind ds = JBool True \<longrightarrow> isThreeOfaKind ds = JBool False)"
proof -
  have exact: "(- 1 < inArray (int k) (getDiceCounts ds))
      = (\<exists>f \<in> {1, 2, 3, 4, 5, 6}. count_list (getDiceValues ds) f = k)" for k :: nat
    by (simp add: inArray_iff in_getDiceCounts)
  have three: "isThreeOfaKind ds
      = JBool (\<exists>f \<in> {1, 2, 3, 4, 5, 6}. count_list (getDiceValues ds) f = 3)"
    using exact [of 3] by (simp add: isThreeOfaKind_def)
  have four: "isFourOfaKind ds
      = JBool (\<exists>f \<in> {1, 2, 3, 4, 5, 6}. count_list (getDiceValues ds) f = 4)"
    using exact [of 4] by (simp add: isFourOfaKind_def)
  have yam: "isYam ds
      = JBool (\<exists>f \<in> {1, 2, 3, 4, 5, 6}. count_list (getDiceValues ds) f = 5)"
    using exact [of 5] by (simp add: isYam_def)
  have excl: "\<not> (int a \<in> set (getDiceCounts ds) \<and> int b \<in> set (getDiceCounts ds))"
    if "a \<noteq> b" "5 < a + b" for a b :: nat
  proof
    assume "int a \<in> set (getDiceCounts ds) \<and> int b \<in> set (getDiceCounts ds)"
    then obtain f g where f: "count_list (getDiceValues ds) f = a"
      and g: "count_list (getDiceValues ds) g = b"
      by (auto simp: in_getDiceCounts)
    with that have "f \<noteq> g" by auto
    from count_list_two [OF this, of "getDiceValues ds"] f g that show False
      by (simp add: length_getDiceValues)
  qed
  from excl [of 5 4] excl [of 5 3] excl [of 4 3]
  have "(isYam ds = JBool True \<longrightarrow>
           isFourOfaKind ds = JBool False \<and> isThreeOfaKind ds = JBool False)
        \<and> (isFourOfaKind ds = JBool True \<longrightarrow> isThreeOfaKind ds = JBool False)"
    by (auto simp: isYam_def isFourOfaKind_def isThreeOfaKind_def inArray_iff)
  with three four yam show ?thesis
    by (simp only: simp_thms)
qed

theorem kinds_exclusive_witness:
  "isYam all_sixes = JBool True
   \<and> isFourOfaKind all_sixes = JBool False \<and> isThreeOfaKind all_sixes = JBool False
   \<and> isFourOfaKind four_sixes = JBool True \<and> isThreeOfaKind four_sixes = JBool False"
proof -
  have y: "isYam all_sixes = JBool True"
    by (simp add: isYam_def counts_all_sixes)
  have f: "isFourOfaKind four_sixes = JBool True"
    by (simp add: isFourOfaKind_def counts_four_sixes)
  from kinds_exclusive [of all_sixes] y
  have a: "isFourOfaKind all_sixes = JBool False \<and> isThreeOfaKind all_sixes = JBool False"
    by blast
  from kinds_exclusive [of four_sixes] f
  have b: "isThreeOfaKind four_sixes = JBool False"
    by blast
  from y f a b show ?thesis by simp
qed

text \<open>
  C2, as stated: with each of the five values in 0..6, the six counts sum to 5.
  \<open>getDiceCounts\<close> counts the faces 1 to 6 only; on the panel whose five dice show 0
  every value is in 0..6 and the counts sum to 0.
\<close>

theorem counts_sum_unrolled:
  "getDiceValues unrolled = [0, 0, 0, 0, 0] \<and> sum_list (getDiceCounts unrolled) = 0"
  by (simp add: values_unrolled counts_unrolled)

text \<open>
  C2, amended: with each of the five values in 0..6, the six counts sum to 5 minus the
  number of dice that show 0; the sum is 5 when no die shows 0.
\<close>

theorem counts_sum:
  assumes "\<forall>v \<in> set (getDiceValues ds). 0 \<le> v \<and> v \<le> 6"
  shows "sum_list (getDiceCounts ds) = 5 - int (count_list (getDiceValues ds) 0)"
proof -
  have "sum_list (getDiceCounts ds)
      = (\<Sum>f\<leftarrow>[1, 2, 3, 4, 5, 6]. int (count_list (getDiceValues ds) f))"
    by (simp add: getDiceCounts_def getDiceCount_eq)
  with count_faces [OF assms] show ?thesis
    by (simp add: length_getDiceValues)
qed

theorem counts_sum_witness:
  "getDiceValues low_street = [1, 2, 3, 4, 5]
   \<and> sum_list (getDiceCounts low_street) = 5 - int (count_list (getDiceValues low_street) 0)
   \<and> sum_list (getDiceCounts low_street) = 5"
proof -
  have h: "\<forall>v \<in> set (getDiceValues low_street). 0 \<le> v \<and> v \<le> 6"
    by (simp add: values_low_street)
  from h counts_sum [OF h] show ?thesis
    by (simp add: values_low_street)
qed

text \<open>
  C8: when \<open>isYam()\<close> is true, \<open>isFullhouse()\<close> is true, by the last disjunct of
  \<open>isFullhouse\<close>, the count 5.
\<close>

theorem yam_is_fullhouse: "isYam ds = JBool True \<Longrightarrow> isFullhouse ds = JBool True"
  by (simp add: isYam_def isFullhouse_def Let_def js_or_def js_and_def)

theorem yam_is_fullhouse_witness:
  "isYam all_sixes = JBool True \<and> isFullhouse all_sixes = JBool True"
proof -
  have y: "isYam all_sixes = JBool True"
    by (simp add: isYam_def counts_all_sixes)
  from y yam_is_fullhouse [OF y] show ?thesis by simp
qed

section \<open>Selecting dice\<close>




text \<open>A click with the control or meta key down is \<open>toggleByValue\<close> at the value of the
  die clicked and the negation of its class.\<close>

lemma diceClick_multi:
  "currentTarget ev < length ds \<Longrightarrow> ctrlKey ev \<or> metaKey ev \<Longrightarrow>
   diceClick ev ds
     = toggleByValue (filter (\<lambda>c. c \<noteq> 0x0D) (el_value (ds ! currentTarget ev)))
         (\<not> hasClass_checked (ds ! currentTarget ev)) ds"
  by (simp add: diceClick_def Let_def jq_val_def)

text \<open>The source's \<open>filter(b)\<close> keeps the dice whose class differs from \<open>b\<close>.\<close>

lemma filter_dice_polarity:
  "set (filter_dice ds b) = {i. i < length ds \<and> hasClass_checked (ds ! i) = (\<not> b)}
   \<and> sorted_wrt (<) (filter_dice ds b)"
  by (auto simp: filter_dice_eq sorted_wrt_filter)

lemma filterByHeld_eq:
  "filterByHeld ds b = filter (\<lambda>i. hasClass_checked (ds ! i) = b) [0..<length ds]"
  unfolding filterByHeld_def filter_dice_eq
  by (rule filter_cong [OF refl]) auto

text \<open>
  C5: \<open>filterByHeld(b)\<close> returns exactly the dice whose held flag equals \<open>b\<close>, in original
  index order. The dice that \<open>rollDice\<close> rolls are \<open>filterByHeld(false)\<close>.
\<close>

theorem filterByHeld_spec:
  "set (filterByHeld ds b) = {i. i < length ds \<and> hasClass_checked (ds ! i) = b}
   \<and> sorted_wrt (<) (filterByHeld ds b)
   \<and> targets (rollDice ds cb) = filterByHeld ds False"
proof -
  have "set (filterByHeld ds b) = {i. i < length ds \<and> hasClass_checked (ds ! i) = b}"
    by (auto simp: filterByHeld_eq)
  moreover have "sorted_wrt (<) (filterByHeld ds b)"
    by (simp add: filterByHeld_eq sorted_wrt_filter)
  moreover have "targets (rollDice ds cb) = filterByHeld ds False"
    by (simp add: rollDice_def Let_def filterByHeld_def)
  ultimately show ?thesis by simp
qed

theorem filterByHeld_spec_witness:
  "map hasClass_checked first_held = [True, False, False, False, False]
   \<and> filterByHeld first_held True = [0]
   \<and> set (filterByHeld first_held True) = {0}
   \<and> filterByHeld first_held False = [1, 2, 3, 4]
   \<and> targets (rollDice first_held True) = filterByHeld first_held False"
proof -
  have t: "filterByHeld first_held True = [0]"
    by (simp add: filterByHeld_def filter_dice_def jq_grep_def first_held_def panel_def)
  have f: "filterByHeld first_held False = [1, 2, 3, 4]"
    by (simp add: filterByHeld_def filter_dice_def jq_grep_def first_held_def panel_def)
  have c: "map hasClass_checked first_held = [True, False, False, False, False]"
    by (simp add: first_held_def panel_def)
  from t f c filterByHeld_spec [of first_held True True] show ?thesis
    by simp
qed




lemma getDieValue_faceString:
  assumes "i < length ds" and "el_value (ds ! i) = faceString f" and "0 \<le> f" and "f \<le> 6"
  shows "getDieValue ds (int i) = f"
proof -
  from assms(3,4) have "f = 0 \<or> f = 1 \<or> f = 2 \<or> f = 3 \<or> f = 4 \<or> f = 5 \<or> f = 6"
    by arith
  with assms(1,2) show ?thesis
    by (auto simp: getDieValue_def jq_eq_def jq_val_def parseInt_def faceString_def
        isWhiteSpace_def isDigit_def)
qed


text \<open>A control-click on a die that is not held and shows a face is
  \<open>toggleHeldByValue\<close> at that face and \<open>true\<close>.\<close>

lemma diceClick_toggleHeldByValue:
  assumes "currentTarget ev < length ds" and "ctrlKey ev \<or> metaKey ev"
    and "\<not> hasClass_checked (ds ! currentTarget ev)" and "showsFace (ds ! currentTarget ev)"
  shows "diceClick ev ds
           = toggleHeldByValue (getDieValue ds (int (currentTarget ev))) True ds"
proof -
  from assms(4) obtain f where f: "el_value (ds ! currentTarget ev) = faceString f"
    "0 \<le> f" "f \<le> 6"
    by (auto simp: showsFace_def)
  from getDieValue_faceString [OF assms(1) f]
  have g: "getDieValue ds (int (currentTarget ev)) = f" .
  have "filter (\<lambda>c. c \<noteq> 0x0D) (faceString f) = faceString f"
    using f(2,3) by (auto simp: faceString_def)
  with diceClick_multi [OF assms(1,2)] assms(3) f(1) g show ?thesis
    by (simp add: toggleHeldByValue_def)
qed



section \<open>The street\<close>

lemma truthy_isStreet:
  "truthy (isStreet ds) =
     (0 < getDiceCount ds 2 \<and> 0 < getDiceCount ds 3 \<and> 0 < getDiceCount ds 4
      \<and> 0 < getDiceCount ds 5 \<and> (0 < getDiceCount ds 1 \<or> 0 < getDiceCount ds 6))"
  by (auto simp: isStreet_def js_and_def js_or_def getDiceCount_eq)

lemma getDiceCount_pos: "(0 < getDiceCount ds f) = (f \<in># mset (getDiceValues ds))"
proof -
  have "(count_list (getDiceValues ds) f \<noteq> 0) = (f \<in> set (getDiceValues ds))"
    by (simp add: count_list_0_iff)
  then show ?thesis
    by (simp add: getDiceCount_eq)
qed

lemma run_of_five:
  fixes M :: "int multiset"
  assumes "size M = 5" "2 \<in># M" "3 \<in># M" "4 \<in># M" "5 \<in># M" "1 \<in># M \<or> 6 \<in># M"
  shows "M = {#1, 2, 3, 4, 5#} \<or> M = {#2, 3, 4, 5, 6#}"
proof -
  from assms(2) obtain A where A: "M = add_mset 2 A"
    by (blast dest: multi_member_split)
  with assms(3) have "3 \<in># A" by simp
  then obtain B where B: "A = add_mset 3 B"
    by (blast dest: multi_member_split)
  with A assms(4) have "4 \<in># B" by simp
  then obtain C where C: "B = add_mset 4 C"
    by (blast dest: multi_member_split)
  with A B assms(5) have "5 \<in># C" by simp
  then obtain D where D: "C = add_mset 5 D"
    by (blast dest: multi_member_split)
  with A B C assms(1) have "size D = 1" by simp
  then obtain x where x: "D = {#x#}"
    by (blast dest: size_1_singleton_mset)
  with A B C D assms(6) have "x = 1 \<or> x = 6" by auto
  with A B C D x show ?thesis by auto
qed

text \<open>
  C6: \<open>isStreet()\<close> is truthy exactly when the counts of 2, 3, 4 and 5 are positive and the
  count of 1 or of 6 is, and that holds exactly when the five values, as a multiset, are
  1, 2, 3, 4, 5 or 2, 3, 4, 5, 6. \<open>getDiceValues\<close> always has five entries, so the statement
  needs no assumption on the panel.
\<close>

theorem street_iff:
  "(truthy (isStreet ds) =
      (0 < getDiceCount ds 2 \<and> 0 < getDiceCount ds 3 \<and> 0 < getDiceCount ds 4
       \<and> 0 < getDiceCount ds 5 \<and> (0 < getDiceCount ds 1 \<or> 0 < getDiceCount ds 6)))
   \<and> (truthy (isStreet ds) =
      (mset (getDiceValues ds) = {#1, 2, 3, 4, 5#} \<or> mset (getDiceValues ds) = {#2, 3, 4, 5, 6#}))"
proof -
  define M where "M = mset (getDiceValues ds)"
  have sz: "size M = 5"
    by (simp add: M_def length_getDiceValues)
  have t: "truthy (isStreet ds) =
      (2 \<in># M \<and> 3 \<in># M \<and> 4 \<in># M \<and> 5 \<in># M \<and> (1 \<in># M \<or> 6 \<in># M))"
    unfolding truthy_isStreet getDiceCount_pos M_def ..
  have "(2 \<in># M \<and> 3 \<in># M \<and> 4 \<in># M \<and> 5 \<in># M \<and> (1 \<in># M \<or> 6 \<in># M))
      = (M = {#1, 2, 3, 4, 5#} \<or> M = {#2, 3, 4, 5, 6#})"
  proof
    assume "2 \<in># M \<and> 3 \<in># M \<and> 4 \<in># M \<and> 5 \<in># M \<and> (1 \<in># M \<or> 6 \<in># M)"
    with sz show "M = {#1, 2, 3, 4, 5#} \<or> M = {#2, 3, 4, 5, 6#}"
      by (intro run_of_five) simp_all
  next
    assume "M = {#1, 2, 3, 4, 5#} \<or> M = {#2, 3, 4, 5, 6#}"
    then show "2 \<in># M \<and> 3 \<in># M \<and> 4 \<in># M \<and> 5 \<in># M \<and> (1 \<in># M \<or> 6 \<in># M)"
      by auto
  qed
  with t have "truthy (isStreet ds) = (M = {#1, 2, 3, 4, 5#} \<or> M = {#2, 3, 4, 5, 6#})"
    by simp
  with truthy_isStreet show ?thesis
    unfolding M_def by simp
qed

theorem street_iff_witness:
  "truthy (isStreet low_street) \<and> mset (getDiceValues low_street) = {#1, 2, 3, 4, 5#}
   \<and> \<not> truthy (isStreet all_sixes)"
proof -
  have v: "mset (getDiceValues low_street) = {#1, 2, 3, 4, 5#}"
    by (simp add: values_low_street)
  with street_iff [of low_street] have t: "truthy (isStreet low_street)"
    by blast
  have "getDiceCount all_sixes 2 = 0"
    by (simp add: getDiceCount_eq values_all_sixes)
  with street_iff [of all_sixes] have n: "\<not> truthy (isStreet all_sixes)"
    by simp
  from t v n show ?thesis by simp
qed

text \<open>
  C10: \<open>isStreet()\<close> returns a number: a positive count when the street condition holds,
  and 0 when the count of a required face is 0. The other four predicates return
  booleans.
\<close>

theorem isStreet_number:
  "(\<exists>n. isStreet ds = JNum n
        \<and> (0 < getDiceCount ds 2 \<and> 0 < getDiceCount ds 3 \<and> 0 < getDiceCount ds 4
             \<and> 0 < getDiceCount ds 5 \<and> (0 < getDiceCount ds 1 \<or> 0 < getDiceCount ds 6)
            \<longrightarrow> 0 < n)
        \<and> (getDiceCount ds 2 = 0 \<or> getDiceCount ds 3 = 0 \<or> getDiceCount ds 4 = 0
             \<or> getDiceCount ds 5 = 0 \<or> (getDiceCount ds 1 = 0 \<and> getDiceCount ds 6 = 0)
            \<longrightarrow> n = 0))
   \<and> (\<exists>b. isThreeOfaKind ds = JBool b) \<and> (\<exists>b. isFourOfaKind ds = JBool b)
   \<and> (\<exists>b. isFullhouse ds = JBool b) \<and> (\<exists>b. isYam ds = JBool b)"
  by (auto simp: isStreet_def js_and_def js_or_def getDiceCount_eq
      isThreeOfaKind_def isFourOfaKind_def isFullhouse_def isYam_def Let_def)

theorem isStreet_number_witness:
  "(\<exists>n. isStreet low_street = JNum n \<and> 0 < n) \<and> (\<exists>n. isStreet all_sixes = JNum n \<and> n = 0)"
  using isStreet_number [of low_street] isStreet_number [of all_sixes]
  by (simp add: getDiceCount_eq values_low_street values_all_sixes)

section \<open>Reading the dice\<close>

lemma parseInt_undefined: "parseInt None = None"
  by (simp add: parseInt_def js_str_def isWhiteSpace_def isDigit_def)

lemma getDiceValues_nth: "k < 5 \<Longrightarrow> getDiceValues ds ! k = getDieValue ds (int k)"
proof -
  assume "k < 5"
  then have "k = 0 \<or> k = 1 \<or> k = 2 \<or> k = 3 \<or> k = 4"
    by arith
  then show ?thesis
    by (auto simp: getDiceValues_eq)
qed

text \<open>
  C9: \<open>getDieValue(index)\<close> is 0 when there is no die at the index (\<open>.eq\<close> gives the empty
  collection, whose \<open>.val()\<close> is \<open>undefined\<close>) and when \<open>parseInt\<close> of the die's value is
  \<open>NaN\<close>. \<open>getDiceValues()\<close> has five entries, entry \<open>k\<close> being \<open>getDieValue(k)\<close>, so it
  holds 0 at every such index. \<open>.eq\<close>, \<open>.val\<close>, \<open>parseInt\<close> and \<open>||\<close> raise on no
  argument, so neither function has an error result.
\<close>

theorem getDieValue_degrades:
  "(jq_eq ds i = None \<longrightarrow> getDieValue ds i = 0)
   \<and> (parseInt (jq_val (jq_eq ds i)) = None \<longrightarrow> getDieValue ds i = 0)
   \<and> length (getDiceValues ds) = 5
   \<and> (\<forall>k < 5. getDiceValues ds ! k = getDieValue ds (int k))
   \<and> (\<forall>k < 5. jq_eq ds (int k) = None \<or> parseInt (jq_val (jq_eq ds (int k))) = None
          \<longrightarrow> getDiceValues ds ! k = 0)"
proof -
  have missing: "getDieValue ds j = 0" if "jq_eq ds j = None" for j
    using that by (simp add: getDieValue_def jq_val_def parseInt_undefined)
  have nan: "getDieValue ds j = 0" if "parseInt (jq_val (jq_eq ds j)) = None" for j
    using that by (simp add: getDieValue_def)
  from missing nan show ?thesis
    by (auto simp: length_getDiceValues getDiceValues_nth)
qed

theorem getDieValue_degrades_witness:
  "getDieValue two_dice 1 = 0 \<and> getDieValue two_dice 4 = 0
   \<and> getDiceValues two_dice = [3, 0, 0, 0, 0]"
proof -
  have m: "jq_eq two_dice 4 = None"
    by (simp add: jq_eq_def two_dice_def panel_def)
  have n: "parseInt (jq_val (jq_eq two_dice 1)) = None"
    by (simp add: two_dice_def eval_defs)
  have v: "getDiceValues two_dice = [3, 0, 0, 0, 0]"
    by (simp add: two_dice_def getDiceValues_eq eval_defs)
  from m n v getDieValue_degrades [of two_dice 4] getDieValue_degrades [of two_dice 1]
  show ?thesis by simp
qed

section \<open>The completion callback\<close>

lemma arrive_snoc: "arrive (arrivals @ [a]) st = deliver a (arrive arrivals st)"
  by (simp add: arrive_def)

lemma arrive_frame:
  "targets (arrive arrivals st) = targets st \<and> len (arrive arrivals st) = len st
   \<and> callback_is_function (arrive arrivals st) = callback_is_function st
   \<and> result (arrive arrivals st) = result st @ accepted (targets st) arrivals"
proof (induction arrivals rule: rev_induct)
  case Nil
  show ?case by (simp add: arrive_def accepted_def)
next
  case (snoc a arrivals)
  then show ?case
    by (simp add: arrive_snoc deliver_def onValue_def Let_def accepted_def)
qed

lemma arrive_fired:
  "fired (arrive arrivals st) = fired st @
     (if callback_is_function st \<and> length (result st) < len st
         \<and> len st \<le> length (result st) + length (accepted (targets st) arrivals)
      then [take (len st) (result st @ accepted (targets st) arrivals)] else [])"
proof (induction arrivals rule: rev_induct)
  case Nil
  show ?case by (simp add: arrive_def accepted_def)
next
  case (snoc a arrivals)
  show ?case
  proof (cases "fst a \<in> set (targets st)")
    case False
    with snoc show ?thesis
      by (simp add: arrive_snoc deliver_def arrive_frame accepted_def)
  next
    case True
    have acc: "accepted (targets st) (arrivals @ [a]) = accepted (targets st) arrivals @ [snd a]"
      using True by (simp add: accepted_def)
    show ?thesis
    proof (cases "Suc (length (result st) + length (accepted (targets st) arrivals)) = len st")
      case True
      with snoc \<open>fst a \<in> set (targets st)\<close> show ?thesis
        by (simp add: arrive_snoc deliver_def onValue_def Let_def arrive_frame acc)
    next
      case False
      with snoc \<open>fst a \<in> set (targets st)\<close> show ?thesis
        by (auto simp: arrive_snoc deliver_def onValue_def Let_def arrive_frame acc)
    qed
  qed
qed

lemma rollDice_fired:
  "fired (arrive arrivals (rollDice ds cb)) =
     (if cb \<and> 0 < length (filter_dice ds True)
         \<and> length (filter_dice ds True) \<le> length (accepted (filter_dice ds True) arrivals)
      then [take (length (filter_dice ds True)) (accepted (filter_dice ds True) arrivals)] else [])"
  by (auto simp: arrive_fired rollDice_def Let_def)

lemma accepted_all:
  "set (map fst arrivals) \<subseteq> set (filter_dice ds True) \<Longrightarrow>
   accepted (filter_dice ds True) arrivals = map snd arrivals"
proof -
  assume a: "set (map fst arrivals) \<subseteq> set (filter_dice ds True)"
  have "filter (\<lambda>a. fst a \<in> set (filter_dice ds True)) arrivals = arrivals"
    using a by (auto simp: filter_id_conv)
  then show ?thesis
    by (simp add: accepted_def)
qed

text \<open>
  C3, as stated: for every number \<open>n\<close> of targeted dice and every order of arrival of
  their \<open>n\<close> results, the callback is called exactly once. With every die held, \<open>n\<close> is
  0, the only order of arrival is the empty one, and the callback is not called.
\<close>

theorem callback_none_all_held:
  "filter_dice all_held True = [] \<and> fired (arrive [] (rollDice all_held True)) = []"
  by (simp add: arrive_def rollDice_def filter_dice_def jq_grep_def all_held_def panel_def)

text \<open>
  C3, amended: when at least one die is targeted and each targeted die reports once, in
  any order, the callback is called exactly once, with all \<open>n\<close> results recorded in
  \<open>result\<close> in their order of arrival, and it has not been called after any smaller
  number of the reports.
\<close>

theorem callback_once:
  assumes perm: "mset (map fst arrivals) = mset (filter_dice ds True)"
    and some: "filter_dice ds True \<noteq> []"
  shows "length arrivals = length (filter_dice ds True)
         \<and> fired (arrive arrivals (rollDice ds True)) = [map snd arrivals]
         \<and> (\<forall>k < length arrivals. fired (arrive (take k arrivals) (rollDice ds True)) = [])"
proof -
  from perm have n: "length arrivals = length (filter_dice ds True)"
    by (metis length_map size_mset)
  from perm have s: "set (map fst arrivals) = set (filter_dice ds True)"
    by (rule mset_eq_setD)
  have full: "fired (arrive arrivals (rollDice ds True)) = [map snd arrivals]"
    using n s some by (simp add: rollDice_fired accepted_all)
  have early: "fired (arrive (take k arrivals) (rollDice ds True)) = []"
    if "k < length arrivals" for k
  proof -
    have "set (map fst (take k arrivals)) \<subseteq> set (filter_dice ds True)"
      using s set_take_subset [of k "map fst arrivals"] by (simp add: take_map)
    with that n show ?thesis
      by (simp add: rollDice_fired accepted_all)
  qed
  from n full early show ?thesis by simp
qed

lemma targets_first_held: "filter_dice first_held True = [1, 2, 3, 4]"
  by (simp add: filter_dice_def jq_grep_def first_held_def panel_def)

theorem callback_once_witness:
  "fired (arrive [(3, 5), (1, 2), (4, 6), (2, 2)] (rollDice first_held True)) = [[5, 2, 6, 2]]
   \<and> fired (arrive [(3, 5), (1, 2), (4, 6)] (rollDice first_held True)) = []"
proof -
  have p: "mset (map fst [(3, 5), (1, 2), (4, 6), (2, 2::int)]) = mset (filter_dice first_held True)"
    by (simp add: targets_first_held)
  have s: "filter_dice first_held True \<noteq> []"
    by (simp add: targets_first_held)
  from callback_once [OF p s] have
    "fired (arrive [(3, 5), (1, 2), (4, 6), (2, 2)] (rollDice first_held True)) = [[5, 2, 6, 2]]"
    and "\<forall>k < 4. fired (arrive (take k [(3, 5), (1, 2), (4, 6), (2, 2)]) (rollDice first_held True)) = []"
    by simp_all
  from this(1) this(2) [rule_format, of 3] show ?thesis
    by simp
qed

lemma onValue_past_len:
  "len st < length (result st) + 1 \<Longrightarrow> fired (fold onValue vs st) = fired st"
proof (induction vs arbitrary: st)
  case Nil
  show ?case by simp
next
  case (Cons v vs)
  have "len (onValue v st) < length (result (onValue v st)) + 1"
    using Cons.prems by (simp add: onValue_def Let_def)
  from Cons.IH [OF this] Cons.prems show ?case
    by (simp add: onValue_def Let_def)
qed

text \<open>
  C7: when every die is held, \<open>.roll\<close> is called on no die and the callback is never
  called, whatever is reported. Even a closure of this roll called on its own would not
  call it: \<open>len\<close> is 0 and \<open>result\<close> has at least one entry after a push.
\<close>

theorem no_targets_no_callback:
  assumes "\<forall>d \<in> set ds. hasClass_checked d"
  shows "targets (rollDice ds cb) = [] \<and> fired (arrive arrivals (rollDice ds cb)) = []
         \<and> fired (fold onValue vs (rollDice ds cb)) = []"
proof -
  from assms have none: "filter_dice ds True = []"
    by (simp add: filter_dice_eq filter_empty_conv)
  then have a: "targets (rollDice ds cb) = [] \<and> fired (arrive arrivals (rollDice ds cb)) = []"
    by (simp add: rollDice_fired) (simp add: rollDice_def)
  from none have "len (rollDice ds cb) < length (result (rollDice ds cb)) + 1"
    by (simp add: rollDice_def)
  then have "fired (fold onValue vs (rollDice ds cb)) = fired (rollDice ds cb)"
    by (rule onValue_past_len)
  moreover have "fired (rollDice ds cb) = []"
    by (simp add: rollDice_def Let_def)
  ultimately have b: "fired (fold onValue vs (rollDice ds cb)) = []"
    by simp
  from a b show ?thesis
    by simp
qed

theorem no_targets_no_callback_witness:
  "map hasClass_checked all_held = [True, True, True, True, True]
   \<and> targets (rollDice all_held True) = []
   \<and> fired (arrive [(0, 3)] (rollDice all_held True)) = []
   \<and> fired (fold onValue [3] (rollDice all_held True)) = []"
proof -
  have h: "\<forall>d \<in> set all_held. hasClass_checked d"
    by (simp add: all_held_def panel_def)
  have f: "map hasClass_checked all_held = [True, True, True, True, True]"
    by (simp add: all_held_def panel_def)
  from f no_targets_no_callback [OF h, of True "[(0, 3)]" "[3]"] show ?thesis
    by simp
qed

end
